theory Spec2Isabelle
  imports Main "HOL-Library.Sublist"
begin

section \<open>Books to Scrape scraper: a shallow embedding of \<open>scrape_books.py\<close>\<close>

text \<open>
  The theory follows \<open>BooksToScrapeScraper\<close> method by method. Python strings are
  modelled as \<open>string\<close> (lists of 8-bit characters); the helpers below give the
  behaviour of \<open>str.lower\<close>, \<open>str.strip\<close>, \<open>in\<close> and \<open>str()\<close> on the ASCII
  range, which is the range of every literal the program compares against.
\<close>

subsection \<open>Python string primitives\<close>

text \<open>\<open>str.lower()\<close>: the letters \<open>A\<close>..\<open>Z\<close> go to \<open>a\<close>..\<open>z\<close>, every other character stays.\<close>

definition lower_char :: "char \<Rightarrow> char" where
  "lower_char c =
     (case map_of (zip ''ABCDEFGHIJKLMNOPQRSTUVWXYZ'' ''abcdefghijklmnopqrstuvwxyz'') c of
        Some l \<Rightarrow> l
      | None \<Rightarrow> c)"

definition lower :: "string \<Rightarrow> string" where
  "lower s = map lower_char s"

text \<open>\<open>sub in s\<close> on strings: \<open>sub\<close> occurs in \<open>s\<close> as a contiguous substring.\<close>

fun py_in :: "string \<Rightarrow> string \<Rightarrow> bool" where
  "py_in sub [] = (sub = [])"
| "py_in sub (c # cs) = (prefix sub (c # cs) \<or> py_in sub cs)"

text \<open>
  \<open>str.isspace\<close> on one character: tab, line feed, vertical tab, form feed, carriage
  return, the four separators \<open>0x1C\<close>..\<open>0x1F\<close> and the space.
\<close>

definition is_space :: "char \<Rightarrow> bool" where
  "is_space c \<longleftrightarrow>
     c \<in> set [CHR 0x09, CHR 0x0A, CHR 0x0B, CHR 0x0C, CHR 0x0D,
               CHR 0x1C, CHR 0x1D, CHR 0x1E, CHR 0x1F, CHR 0x20]"

text \<open>\<open>str.strip()\<close> without argument: leading and trailing whitespace is removed.\<close>

definition strip :: "string \<Rightarrow> string" where
  "strip s = rev (dropWhile is_space (rev (dropWhile is_space s)))"

text \<open>The regular expression class \<open>\d\<close>.\<close>

definition is_digit :: "char \<Rightarrow> bool" where
  "is_digit c \<longleftrightarrow> c \<in> set ''0123456789''"

text \<open>\<open>str(n)\<close> for an integer: decimal digits, with a minus sign when negative.\<close>

definition digit_char :: "nat \<Rightarrow> char" where
  "digit_char d = ''0123456789'' ! d"

fun str_nat :: "nat \<Rightarrow> string" where
  "str_nat n =
     (if n < 10 then [digit_char n] else str_nat (n div 10) @ [digit_char (n mod 10)])"

declare str_nat.simps [simp del]

definition str_int :: "int \<Rightarrow> string" where
  "str_int i = (if i < 0 then CHR ''-'' # str_nat (nat (- i)) else str_nat (nat i))"

subsection \<open>The record type\<close>

text \<open>
  \<open>@dataclass BookRow\<close>: five required fields and three optional ones, \<open>None\<close> by
  default.
\<close>

record BookRow =
  title :: string
  price :: string
  rating :: int
  availability :: string
  product_url :: string
  upc :: "string option"
  category :: "string option"
  description :: "string option"

subsection \<open>\<open>extract_rating\<close>\<close>

text \<open>
  \<open>self.rating_map\<close>, as an association list in the dictionary's insertion order, which
  is the order \<open>.items()\<close> iterates in.
\<close>

definition rating_map :: "(string \<times> int) list" where
  "rating_map = [(''One'', 1), (''Two'', 2), (''Three'', 3), (''Four'', 4), (''Five'', 5)]"

text \<open>
  The loop \<open>for word, num in self.rating_map.items()\<close>: the first entry whose lowered
  word occurs in the lowered class string decides; falling out of the loop returns 0.
\<close>

fun extract_rating_loop :: "(string \<times> int) list \<Rightarrow> string \<Rightarrow> int" where
  "extract_rating_loop [] rating_class = 0"
| "extract_rating_loop ((word, num) # rest) rating_class =
     (if py_in (lower word) (lower rating_class) then num
      else extract_rating_loop rest rating_class)"

definition extract_rating :: "string \<Rightarrow> int" where
  "extract_rating rating_class = extract_rating_loop rating_map rating_class"

subsection \<open>\<open>extract_availability\<close>\<close>

text \<open>
  \<open>re.search(r'\((\d+) available\)', text)\<close>. \<open>re_match_here\<close> is a match anchored at
  the head of the string: an opening parenthesis, the longest run of digits (the
  greedy \<open>\d+\<close>, which must not be empty), then the literal \<open> available)\<close>. The
  character after the run is not a digit, so giving digits back can never produce a
  match and the greedy choice is the only one. \<open>re_search\<close> tries every start position
  from the left and returns group 1 of the first match.
\<close>

definition re_match_here :: "string \<Rightarrow> string option" where
  "re_match_here s =
     (case s of
        [] \<Rightarrow> None
      | c # rest \<Rightarrow>
          if c = CHR ''('' \<and> takeWhile is_digit rest \<noteq> []
             \<and> prefix '' available)'' (dropWhile is_digit rest)
          then Some (takeWhile is_digit rest)
          else None)"

fun re_search :: "string \<Rightarrow> string option" where
  "re_search [] = None"
| "re_search (c # cs) =
     (case re_match_here (c # cs) of
        Some g \<Rightarrow> Some g
      | None \<Rightarrow> re_search cs)"

definition extract_availability :: "string \<Rightarrow> string" where
  "extract_availability availability_text =
     (if py_in ''In stock'' availability_text
      then (case re_search availability_text of
              Some g \<Rightarrow> g
            | None \<Rightarrow> ''Unknown'')
      else ''0'')"

subsection \<open>Parsed pages\<close>

text \<open>
  A parsed page (\<open>BeautifulSoup\<close>) is represented by the answers it gives to the
  queries the scraper asks. For every \<open>find\<close>, \<open>None\<close> means that no element matches.

  \<^item> \<open>title_attr\<close>, \<open>href_attr\<close>: the \<open>title\<close> and \<open>href\<close> attributes of a link, absent or
    present.
  \<^item> \<open>h3_a\<close>: \<open>article.find('h3')\<close> followed by \<open>.find('a')\<close>: no \<open>h3\<close>, an \<open>h3\<close> without
    link, or the link.
  \<^item> \<open>price_color\<close>: the text of \<open>article.find('p', class_='price_color')\<close>.
  \<^item> \<open>star_rating\<close>: the class list of \<open>article.find('p', class_='star-rating')\<close>.
  \<^item> \<open>instock_availability\<close>: the text of
    \<open>article.find('p', class_='instock availability')\<close>.
  \<^item> \<open>articles\<close>: \<open>soup.find_all('article', class_='product_pod')\<close>, in document order.
  \<^item> \<open>upc_th\<close>: \<open>soup.find('th', string='UPC')\<close> followed by
    \<open>.find_next_sibling('td')\<close>: no header cell, a header cell without sibling, or the
    sibling's text.
  \<^item> \<open>breadcrumb\<close>: \<open>soup.find('ul', class_='breadcrumb')\<close> followed by
    \<open>.find_all('a')\<close>: no list, or the texts of its links.
  \<^item> \<open>product_description\<close>: \<open>soup.find('div', id='product_description')\<close> followed
    by \<open>.find_next_sibling('p')\<close>.
\<close>

record anchor =
  title_attr :: "string option"
  href_attr :: "string option"

record article =
  h3_a :: "anchor option option"
  price_color :: "string option"
  star_rating :: "string list option"
  instock_availability :: "string option"

record soup =
  articles :: "article list"
  upc_th :: "string option option"
  breadcrumb :: "string list option"
  product_description :: "string option option"

text \<open>The exceptions that the extraction code can raise inside its \<open>try\<close> blocks.\<close>

datatype exn = AttributeError | IndexError | ValueError

text \<open>\<open>sep.join(parts)\<close>.\<close>

fun join :: "string \<Rightarrow> string list \<Rightarrow> string" where
  "join sep [] = []"
| "join sep [x] = x"
| "join sep (x # y # ys) = x @ sep @ join sep (y # ys)"

subsection \<open>\<open>scrape_book_listing\<close>\<close>

text \<open>
  \<open>urllib.parse.urljoin\<close> is a parameter of the model, \<open>urljoin base url\<close>; the result
  \<open>None\<close> stands for the \<open>ValueError\<close> that the library raises on a malformed URL.

  \<open>scrape_book_listing_item\<close> is the body of the \<open>try\<close> block for one article. Calling
  \<open>.find\<close> or \<open>.get\<close> on \<open>None\<close> raises \<open>AttributeError\<close>; the new \<open>BookRow\<close> leaves the
  three optional fields at their default \<open>None\<close>.
\<close>

definition scrape_book_listing_item ::
  "(string \<Rightarrow> string \<Rightarrow> string option) \<Rightarrow> string \<Rightarrow> article \<Rightarrow> exn + BookRow" where
  "scrape_book_listing_item urljoin base_url art =
     (case h3_a art of
        None \<Rightarrow> Inl AttributeError
      | Some None \<Rightarrow> Inl AttributeError
      | Some (Some title_link) \<Rightarrow>
          (let title' = strip (case title_attr title_link of None \<Rightarrow> [] | Some t \<Rightarrow> t);
               relative_url = (case href_attr title_link of None \<Rightarrow> [] | Some h \<Rightarrow> h)
           in case urljoin base_url relative_url of
                None \<Rightarrow> Inl ValueError
              | Some product_url' \<Rightarrow>
                  (let price' = (case price_color art of
                                   Some t \<Rightarrow> strip t
                                 | None \<Rightarrow> ''N/A'');
                       rating_class = (case star_rating art of
                                         Some cls \<Rightarrow> cls
                                       | None \<Rightarrow> []);
                       rating' = extract_rating (join '' '' rating_class);
                       availability_text = (case instock_availability art of
                                              Some t \<Rightarrow> strip t
                                            | None \<Rightarrow> []);
                       availability' = extract_availability availability_text
                   in Inr \<lparr>title = title', price = price', rating = rating',
                           availability = availability', product_url = product_url',
                           upc = None, category = None, description = None\<rparr>)))"

text \<open>
  The loop over the articles: an item that raised is skipped (\<open>continue\<close>), every other
  item is appended to \<open>books\<close>.
\<close>

fun scrape_book_listing_loop ::
  "(string \<Rightarrow> string \<Rightarrow> string option) \<Rightarrow> string \<Rightarrow> article list \<Rightarrow> BookRow list
     \<Rightarrow> BookRow list" where
  "scrape_book_listing_loop urljoin base_url [] books = books"
| "scrape_book_listing_loop urljoin base_url (art # rest) books =
     (case scrape_book_listing_item urljoin base_url art of
        Inl e \<Rightarrow> scrape_book_listing_loop urljoin base_url rest books
      | Inr book \<Rightarrow> scrape_book_listing_loop urljoin base_url rest (books @ [book]))"

definition scrape_book_listing ::
  "(string \<Rightarrow> string \<Rightarrow> string option) \<Rightarrow> soup \<Rightarrow> string \<Rightarrow> BookRow list" where
  "scrape_book_listing urljoin sp base_url =
     scrape_book_listing_loop urljoin base_url (articles sp) []"

subsection \<open>The network and \<open>get_page\<close>\<close>

text \<open>
  The effects of the program on the outside world are recorded in a trace, oldest
  event first: \<open>Http_get url attempt\<close> is the request \<open>self.session.get(url)\<close> of the
  loop iteration \<open>attempt\<close> (counted from 0), \<open>Sleep_delay\<close> is the pause
  \<open>time.sleep(self.delay)\<close> after a successful fetch and \<open>Sleep_backoff n\<close> is
  \<open>time.sleep(n)\<close> between two attempts. Logger output is not part of the trace.

  The network is a function of the history and the URL: a request either yields a
  page, or fails with a \<open>requests.RequestException\<close> (connection error, timeout, or
  the error status that \<open>raise_for_status\<close> turns into an exception).
\<close>

datatype event = Http_get string nat | Sleep_delay | Sleep_backoff nat

datatype response = Page soup | RequestException

type_synonym network = "event list \<Rightarrow> string \<Rightarrow> response"

text \<open>
  \<open>for attempt in range(max_retries)\<close>, as a recursion over the remaining attempts.
  When the range is exhausted without a \<open>return\<close> the method ends and yields \<open>None\<close>.
\<close>

fun get_page_loop ::
  "network \<Rightarrow> string \<Rightarrow> int \<Rightarrow> nat list \<Rightarrow> event list \<Rightarrow> soup option \<times> event list" where
  "get_page_loop net url max_retries [] tr = (None, tr)"
| "get_page_loop net url max_retries (attempt # rest) tr =
     (case net tr url of
        Page sp \<Rightarrow> (Some sp, tr @ [Http_get url attempt, Sleep_delay])
      | RequestException \<Rightarrow>
          if int attempt < max_retries - 1
          then get_page_loop net url max_retries rest
                 (tr @ [Http_get url attempt, Sleep_backoff (2 ^ attempt)])
          else (None, tr @ [Http_get url attempt]))"

definition get_page ::
  "network \<Rightarrow> string \<Rightarrow> int \<Rightarrow> event list \<Rightarrow> soup option \<times> event list" where
  "get_page net url max_retries tr =
     get_page_loop net url max_retries [0..<nat max_retries] tr"

subsection \<open>\<open>scrape_book_detail\<close>\<close>

text \<open>
  The three extractions of the \<open>try\<close> block, in source order. Each one either raises
  or yields the value that is assigned to the field after all three have been
  computed. A found element is always true in a condition, so
  \<open>if category_element\<close> always takes the first branch.
\<close>

definition detail_upc :: "soup \<Rightarrow> exn + string option" where
  "detail_upc sp =
     (case upc_th sp of
        None \<Rightarrow> Inr None
      | Some None \<Rightarrow> Inl AttributeError
      | Some (Some t) \<Rightarrow> Inr (Some (strip t)))"

definition detail_category :: "soup \<Rightarrow> exn + string option" where
  "detail_category sp =
     (case breadcrumb sp of
        None \<Rightarrow> Inl AttributeError
      | Some [] \<Rightarrow> Inl IndexError
      | Some (l # ls) \<Rightarrow> Inr (Some (strip (last (l # ls)))))"

definition detail_description :: "soup \<Rightarrow> exn + string option" where
  "detail_description sp =
     (case product_description sp of
        None \<Rightarrow> Inr None
      | Some None \<Rightarrow> Inl AttributeError
      | Some (Some t) \<Rightarrow> Inr (Some (strip t)))"

text \<open>
  \<open>get_page\<close> is called with its default \<open>max_retries = 3\<close>. One \<open>except\<close> clause
  encloses the three extractions and the three assignments that follow them.
\<close>

definition scrape_book_detail ::
  "network \<Rightarrow> BookRow \<Rightarrow> event list \<Rightarrow> BookRow \<times> event list" where
  "scrape_book_detail net book tr =
     (case get_page net (product_url book) 3 tr of
        (None, tr') \<Rightarrow> (book, tr')
      | (Some sp, tr') \<Rightarrow>
          (case detail_upc sp of
             Inl e \<Rightarrow> (book, tr')
           | Inr u \<Rightarrow>
               (case detail_category sp of
                  Inl e \<Rightarrow> (book, tr')
                | Inr c \<Rightarrow>
                    (case detail_description sp of
                       Inl e \<Rightarrow> (book, tr')
                     | Inr d \<Rightarrow>
                         (book\<lparr>upc := u, category := c, description := d\<rparr>, tr')))))"

subsection \<open>\<open>scrape_books\<close>\<close>

definition base_url :: string where
  "base_url = ''https://books.toscrape.com/catalogue/''"

definition page_url :: "int \<Rightarrow> string" where
  "page_url page_num = base_url @ ''page-'' @ str_int page_num @ ''.html''"

text \<open>\<open>for i, book in enumerate(books): books[i] = self.scrape_book_detail(book)\<close>.\<close>

fun detail_loop :: "network \<Rightarrow> BookRow list \<Rightarrow> event list \<Rightarrow> BookRow list \<times> event list" where
  "detail_loop net [] tr = ([], tr)"
| "detail_loop net (book # rest) tr =
     (case scrape_book_detail net book tr of
        (book', tr1) \<Rightarrow>
          (case detail_loop net rest tr1 of
             (rest', tr2) \<Rightarrow> (book' # rest', tr2)))"

text \<open>
  The loop \<open>for page_num in range(1, max_pages + 1)\<close> with its accumulator
  \<open>all_books\<close>: a failed fetch skips the page (\<open>continue\<close>), otherwise the page's
  records, enriched when \<open>deep\<close> is set, are appended (\<open>all_books.extend(books)\<close>).
\<close>

fun scrape_books_loop ::
  "network \<Rightarrow> (string \<Rightarrow> string \<Rightarrow> string option) \<Rightarrow> bool \<Rightarrow> int list \<Rightarrow> BookRow list
     \<Rightarrow> event list \<Rightarrow> BookRow list \<times> event list" where
  "scrape_books_loop net urljoin deep [] all_books tr = (all_books, tr)"
| "scrape_books_loop net urljoin deep (page_num # rest) all_books tr =
     (case get_page net (page_url page_num) 3 tr of
        (None, tr1) \<Rightarrow> scrape_books_loop net urljoin deep rest all_books tr1
      | (Some sp, tr1) \<Rightarrow>
          (case (if deep
                 then detail_loop net (scrape_book_listing urljoin sp base_url) tr1
                 else (scrape_book_listing urljoin sp base_url, tr1)) of
             (books, tr2) \<Rightarrow>
               scrape_books_loop net urljoin deep rest (all_books @ books) tr2))"

definition scrape_books ::
  "network \<Rightarrow> (string \<Rightarrow> string \<Rightarrow> string option) \<Rightarrow> int \<Rightarrow> bool \<Rightarrow> event list
     \<Rightarrow> BookRow list \<times> event list" where
  "scrape_books net urljoin max_pages deep tr =
     scrape_books_loop net urljoin deep [1..max_pages] [] tr"

subsection \<open>\<open>save_to_csv\<close> and reading the file back\<close>








subsection \<open>\<open>main\<close>\<close>

text \<open>
  The parsed command line (\<open>args.max_pages\<close>, \<open>args.deep\<close>, \<open>args.out_csv\<close>,
  \<open>args.out_sqlite\<close>), without the two options that only configure the delay and
  the logger.
\<close>

record args =
  args_max_pages :: int
  args_deep :: bool
  args_out_csv :: string
  args_out_sqlite :: "string option"

text \<open>
  What \<open>main\<close> does after the crawl, in order: the message of the empty run, the
  calls of the two sinks, the sample listing and the closing summary.
\<close>

datatype action =
    Print_no_books_scraped
  | Save_to_csv "BookRow list" string
  | Save_to_sqlite "BookRow list" string
  | Print_sample_data string "string option"
  | Print_completed nat string "string option"

text \<open>
  How a run of the script ends: \<open>main\<close> returns to the module level, which ends the
  interpreter with status 0, or \<open>sys.exit(n)\<close> ends it with status \<open>n\<close>.
\<close>

datatype ending = Returned | Sys_exit int

definition exit_status :: "ending \<Rightarrow> int" where
  "exit_status e = (case e of Returned \<Rightarrow> 0 | Sys_exit n \<Rightarrow> n)"

text \<open>\<open>if args.out_sqlite\<close> holds for a file name that is given and not empty.\<close>

definition main ::
  "network \<Rightarrow> (string \<Rightarrow> string \<Rightarrow> string option) \<Rightarrow> args \<Rightarrow> event list
     \<Rightarrow> action list \<times> ending \<times> event list" where
  "main net urljoin a tr =
     (case scrape_books net urljoin (args_max_pages a) (args_deep a) tr of
        (books, tr') \<Rightarrow>
          if books = [] then ([Print_no_books_scraped], Returned, tr')
          else
            ([Save_to_csv books (args_out_csv a)]
             @ (case args_out_sqlite a of
                  None \<Rightarrow> []
                | Some f \<Rightarrow> if f = [] then [] else [Save_to_sqlite books f])
             @ [Print_sample_data (args_out_csv a) (args_out_sqlite a),
                Print_completed (length books) (args_out_csv a) (args_out_sqlite a)],
             Returned, tr'))"

section \<open>Notions used to state the properties\<close>

text \<open>
  \<open>count_at s i ds\<close>: at position \<open>i\<close> of \<open>s\<close> stands a parenthesised count, that is an
  opening parenthesis, the non-empty digit string \<open>ds\<close> and the text \<open> available)\<close>.
\<close>

definition count_at :: "string \<Rightarrow> nat \<Rightarrow> string \<Rightarrow> bool" where
  "count_at s i ds \<longleftrightarrow>
     prefix (''('' @ ds @ '' available)'') (drop i s) \<and> ds \<noteq> [] \<and> list_all is_digit ds"

text \<open>
  The events of \<open>k\<close> failed attempts on \<open>url\<close> that are each followed by a backoff
  sleep, and the events of a fetch that fails on all of its \<open>n\<close> attempts.
\<close>

definition backoff_prefix :: "string \<Rightarrow> nat \<Rightarrow> event list" where
  "backoff_prefix url k = concat (map (\<lambda>a. [Http_get url a, Sleep_backoff (2 ^ a)]) [0..<k])"

definition exhausted_trace :: "string \<Rightarrow> nat \<Rightarrow> event list" where
  "exhausted_trace url n = backoff_prefix url (n - 1) @ [Http_get url (n - 1)]"

text \<open>Projections of a trace: the requests, the backoff sleeps, the politeness sleeps.\<close>

fun http_gets :: "event list \<Rightarrow> (string \<times> nat) list" where
  "http_gets [] = []"
| "http_gets (Http_get url a # es) = (url, a) # http_gets es"
| "http_gets (e # es) = http_gets es"

fun backoffs :: "event list \<Rightarrow> nat list" where
  "backoffs [] = []"
| "backoffs (Sleep_backoff n # es) = n # backoffs es"
| "backoffs (e # es) = backoffs es"

text \<open>
  The URLs on which \<open>get_page\<close> was called, in order: every call with at least one
  attempt starts with the request of attempt 0, and no later attempt has that number.
\<close>

fun get_page_calls :: "event list \<Rightarrow> string list" where
  "get_page_calls [] = []"
| "get_page_calls (Http_get url a # es) =
     (if a = 0 then url # get_page_calls es else get_page_calls es)"
| "get_page_calls (e # es) = get_page_calls es"

text \<open>
  The results of the listing extractor page by page, as a crawl over the given page
  numbers obtains them: the extractor's output for a page that was fetched, and no
  records for a page whose fetch failed.
\<close>

fun page_listings ::
  "network \<Rightarrow> (string \<Rightarrow> string \<Rightarrow> string option) \<Rightarrow> bool \<Rightarrow> int list \<Rightarrow> event list
     \<Rightarrow> BookRow list list" where
  "page_listings net urljoin deep [] tr = []"
| "page_listings net urljoin deep (page_num # rest) tr =
     (case get_page net (page_url page_num) 3 tr of
        (None, tr1) \<Rightarrow> [] # page_listings net urljoin deep rest tr1
      | (Some sp, tr1) \<Rightarrow>
          scrape_book_listing urljoin sp base_url
          # page_listings net urljoin deep rest
              (if deep
               then snd (detail_loop net (scrape_book_listing urljoin sp base_url) tr1)
               else tr1))"

text \<open>The fields of a record that the listing extractor fills.\<close>

definition listing_fields :: "BookRow \<Rightarrow> string \<times> string \<times> int \<times> string \<times> string" where
  "listing_fields b = (title b, price b, rating b, availability b, product_url b)"

text \<open>
  The \<open>get_page\<close> calls that belong to one page of a crawl: the fetch of the listing
  page and, in a deep crawl, the fetch of the detail page of each of its records.
\<close>

definition page_calls :: "bool \<Rightarrow> int \<times> BookRow list \<Rightarrow> string list" where
  "page_calls dp pl = page_url (fst pl) # (if dp then map product_url (snd pl) else [])"




section \<open>Sample inputs\<close>

text \<open>
  Concrete pages, networks and records at which the properties below are evaluated.
  \<open>urljoin_append\<close> joins by appending, which is what URL joining yields for a base
  that ends in a slash and a plain relative path.
\<close>

definition urljoin_append :: "string \<Rightarrow> string \<Rightarrow> string option" where
  "urljoin_append base url = Some (base @ url)"

definition untitled_article :: article where
  "untitled_article =
     \<lparr>h3_a = Some (Some \<lparr>title_attr = None, href_attr = Some ''a/index.html''\<rparr>),
      price_color = None, star_rating = Some [''star-rating'', ''Five''],
      instock_availability = None\<rparr>"

definition listing_page :: soup where
  "listing_page =
     \<lparr>articles = [untitled_article], upc_th = None, breadcrumb = None,
      product_description = None\<rparr>"

definition detail_page_no_paragraph :: soup where
  "detail_page_no_paragraph =
     \<lparr>articles = [], upc_th = Some (Some ''a897fe39b1053632''),
      breadcrumb = Some [''Home'', ''Books'', ''Poetry''],
      product_description = Some None\<rparr>"

definition detail_page_no_upc :: soup where
  "detail_page_no_upc =
     \<lparr>articles = [], upc_th = None, breadcrumb = Some [''Home'', ''Books'', ''Poetry''],
      product_description = None\<rparr>"

definition net_down :: network where
  "net_down tr url = RequestException"

definition net_serving :: "soup \<Rightarrow> network" where
  "net_serving sp tr url = Page sp"

definition listed_book :: BookRow where
  "listed_book =
     \<lparr>title = ''A Light in the Attic'', price = ''51.77'', rating = 3, availability = ''22'',
      product_url = ''https://books.toscrape.com/catalogue/a/index.html'',
      upc = None, category = None, description = None\<rparr>"

definition untitled_book :: BookRow where
  "untitled_book =
     \<lparr>title = [], price = ''N/A'', rating = 5, availability = ''0'',
      product_url = ''https://books.toscrape.com/catalogue/a/index.html'',
      upc = None, category = None, description = None\<rparr>"

text \<open>The command line without any option: the defaults of the argument parser.\<close>

definition default_args :: args where
  "default_args = \<lparr>args_max_pages = 3, args_deep = False, args_out_csv = ''books.csv'',
                    args_out_sqlite = None\<rparr>"

section \<open>Properties\<close>

subsection \<open>Strings\<close>

lemma py_in_sublist: "py_in sub s = sublist sub s"
  by (induction s) (auto simp: sublist_Cons_right)

lemma lower_words:
  "lower ''One'' = ''one''" "lower ''Two'' = ''two''" "lower ''Three'' = ''three''"
  "lower ''Four'' = ''four''" "lower ''Five'' = ''five''"
  by (simp_all add: lower_def lower_char_def)

subsection \<open>Rating\<close>

lemma extract_rating_unfold:
  "extract_rating s =
     (if sublist ''one'' (lower s) then 1
      else if sublist ''two'' (lower s) then 2
      else if sublist ''three'' (lower s) then 3
      else if sublist ''four'' (lower s) then 4
      else if sublist ''five'' (lower s) then 5
      else 0)"
  by (simp add: extract_rating_def rating_map_def lower_words py_in_sublist)

text \<open>
  C1, as the code has it: each of the five words \<open>One\<close>, \<open>Two\<close>, \<open>Three\<close>, \<open>Four\<close>,
  \<open>Five\<close> maps to its number, and for every input string the result is the number
  of the first word, in that order, whose lower-case form occurs somewhere in the
  lower-cased input; it is 0 when none of the five occurs.
\<close>

theorem extract_rating_table:
  "extract_rating ''One'' = 1 \<and> extract_rating ''Two'' = 2 \<and> extract_rating ''Three'' = 3 \<and>
   extract_rating ''Four'' = 4 \<and> extract_rating ''Five'' = 5 \<and>
   extract_rating s =
     (if sublist ''one'' (lower s) then 1
      else if sublist ''two'' (lower s) then 2
      else if sublist ''three'' (lower s) then 3
      else if sublist ''four'' (lower s) then 4
      else if sublist ''five'' (lower s) then 5
      else 0)"
proof -
  have "extract_rating ''One'' = 1" "extract_rating ''Two'' = 2" "extract_rating ''Three'' = 3"
       "extract_rating ''Four'' = 4" "extract_rating ''Five'' = 5"
    by (simp_all add: extract_rating_def rating_map_def lower_words)
  with extract_rating_unfold [of s] show ?thesis by blast
qed

text \<open>
  C1 at two inputs: the class string of a three-star element, and a string without
  any of the five words.
\<close>

theorem extract_rating_table_witness:
  "extract_rating ''star-rating Three'' = 3 \<and> extract_rating ''no stars'' = 0"
proof -
  have l: "lower ''star-rating Three'' = ''star-rating three''"
          "lower ''no stars'' = ''no stars''"
    by (simp_all add: lower_def lower_char_def)
  show ?thesis
    using extract_rating_table [of "''star-rating Three''"]
          extract_rating_table [of "''no stars''"]
    by (simp add: l py_in_sublist [symmetric])
qed

text \<open>
  C1 as stated fails: \<open>star-rating Three\<close>, the class string the listing extractor
  passes in, is none of the five words, and its rating is not 0.
\<close>

theorem extract_rating_counterexample:
  "''star-rating Three'' \<notin> set [''One'', ''Two'', ''Three'', ''Four'', ''Five''] \<and>
   extract_rating ''star-rating Three'' \<noteq> 0"
  by (simp add: extract_rating_def rating_map_def lower_def lower_char_def)

subsection \<open>Availability\<close>

lemma not_digit_space: "\<not> is_digit CHR '' ''"
  by (simp add: is_digit_def)

lemma re_match_here_iff: "re_match_here s = Some ds \<longleftrightarrow> count_at s 0 ds"
proof
  assume "re_match_here s = Some ds"
  then obtain rest where s: "s = CHR ''('' # rest"
    and ds: "ds = takeWhile is_digit rest" "ds \<noteq> []"
    and p: "prefix '' available)'' (dropWhile is_digit rest)"
    by (auto simp: re_match_here_def split: list.splits if_splits)
  from p obtain post where "dropWhile is_digit rest = '' available)'' @ post"
    by (auto simp: prefix_def)
  then have "rest = ds @ '' available)'' @ post"
    using ds(1) takeWhile_dropWhile_id [of is_digit rest] by simp
  moreover have "list_all is_digit ds"
    unfolding ds(1) list_all_iff by (auto dest: set_takeWhileD)
  ultimately show "count_at s 0 ds"
    using s ds(2) by (simp add: count_at_def)
next
  assume "count_at s 0 ds"
  then obtain post where s: "s = CHR ''('' # ds @ '' available)'' @ post"
    and ne: "ds \<noteq> []" and dg: "\<forall>c\<in>set ds. is_digit c"
    by (auto simp: count_at_def prefix_def list_all_iff)
  have tw: "takeWhile is_digit (ds @ '' available)'' @ post) = ds"
    using dg not_digit_space by (simp add: takeWhile_append2)
  have dw: "dropWhile is_digit (ds @ '' available)'' @ post) = '' available)'' @ post"
    using dg not_digit_space by (simp add: dropWhile_append2)
  show "re_match_here s = Some ds"
    unfolding re_match_here_def s using ne tw dw by simp
qed

lemma count_at_Suc: "count_at (c # cs) (Suc i) ds = count_at cs i ds"
  by (simp add: count_at_def)

lemma count_at_Nil: "\<not> count_at [] i ds"
  by (simp add: count_at_def)

lemma count_at_paren:
  assumes "count_at s j ds"
  shows "j < length s \<and> s ! j = CHR ''(''"
proof -
  from assms obtain post where d: "drop j s = CHR ''('' # ds @ '' available)'' @ post"
    by (auto simp: count_at_def prefix_def)
  then have l: "j < length s" by (cases "j < length s") auto
  with d have "s ! j = CHR ''(''" by (metis nth_via_drop)
  with l show ?thesis by simp
qed

lemma re_search_None: "re_search s = None \<longleftrightarrow> (\<forall>i ds. \<not> count_at s i ds)"
proof (induction s)
  case Nil
  show ?case by (simp add: count_at_Nil)
next
  case (Cons c cs)
  have "(\<forall>i ds. \<not> count_at (c # cs) i ds) \<longleftrightarrow>
        (\<forall>ds. \<not> count_at (c # cs) 0 ds) \<and> (\<forall>i ds. \<not> count_at cs i ds)"
    by (metis count_at_Suc not0_implies_Suc)
  with Cons show ?case
    by (auto simp: re_match_here_iff [symmetric] split: option.splits)
qed

lemma re_search_first:
  "count_at s i ds \<Longrightarrow> (\<forall>j<i. \<forall>ds'. \<not> count_at s j ds') \<Longrightarrow> re_search s = Some ds"
proof (induction s arbitrary: i)
  case Nil
  then show ?case by (simp add: count_at_Nil)
next
  case (Cons c cs)
  show ?case
  proof (cases i)
    case 0
    with Cons.prems(1) have "re_match_here (c # cs) = Some ds"
      by (simp add: re_match_here_iff)
    then show ?thesis by simp
  next
    case (Suc k)
    with Cons.prems have k: "count_at cs k ds"
      and none0: "\<forall>ds'. \<not> count_at (c # cs) 0 ds'"
      and nonek: "\<forall>j<k. \<forall>ds'. \<not> count_at cs j ds'"
      by (auto simp: count_at_Suc)
    from none0 have "re_match_here (c # cs) = None"
      using re_match_here_iff by (cases "re_match_here (c # cs)") auto
    then show ?thesis using Cons.IH [OF k nonek] by simp
  qed
qed

text \<open>
  C8, as the code has it: the stock wording \<open>In stock\<close> is tested first. An input
  without it yields \<open>0\<close>, whether or not it holds a parenthesised count. An input
  with it yields \<open>Unknown\<close> when no parenthesised count occurs, and otherwise the
  digits of the leftmost parenthesised count.
\<close>

theorem extract_availability_cases:
  "(\<not> sublist ''In stock'' s \<longrightarrow> extract_availability s = ''0'') \<and>
   (sublist ''In stock'' s \<and> (\<forall>i ds. \<not> count_at s i ds)
      \<longrightarrow> extract_availability s = ''Unknown'') \<and>
   (sublist ''In stock'' s \<and> count_at s i ds \<and> (\<forall>j<i. \<forall>ds'. \<not> count_at s j ds')
      \<longrightarrow> extract_availability s = ds)"
proof (intro conjI impI)
  assume "\<not> sublist ''In stock'' s"
  then show "extract_availability s = ''0''"
    by (simp add: extract_availability_def py_in_sublist)
next
  assume a: "sublist ''In stock'' s \<and> (\<forall>i ds. \<not> count_at s i ds)"
  then have "re_search s = None" by (simp add: re_search_None)
  with a show "extract_availability s = ''Unknown''"
    by (simp add: extract_availability_def py_in_sublist)
next
  assume a: "sublist ''In stock'' s \<and> count_at s i ds \<and> (\<forall>j<i. \<forall>ds'. \<not> count_at s j ds')"
  then have "re_search s = Some ds" using re_search_first [of s i ds] by blast
  with a show "extract_availability s = ds"
    by (simp add: extract_availability_def py_in_sublist)
qed

text \<open>
  C8 at the three inputs \<open>In stock (22 available)\<close>, \<open>In stock\<close> and \<open>Out of stock\<close>,
  one for each case.
\<close>

theorem extract_availability_cases_witness:
  "extract_availability ''In stock (22 available)'' = ''22'' \<and>
   extract_availability ''In stock'' = ''Unknown'' \<and>
   extract_availability ''Out of stock'' = ''0''"
proof -
  let ?s = "''In stock (22 available)''"
  have a: "sublist ''In stock'' ?s" by (simp add: py_in_sublist [symmetric])
  have b: "count_at ?s 9 ''22''" by (simp add: count_at_def is_digit_def)
  have c: "\<forall>j<9. \<forall>ds'. \<not> count_at ?s j ds'"
  proof (intro allI impI notI)
    fix j :: nat and ds' assume "j < 9" and "count_at ?s j ds'"
    then have "?s ! j = CHR ''(''" and "j < 9" using count_at_paren by blast+
    then show False by (simp add: nth_Cons' less_Suc_eq numeral_nat split: if_splits)
  qed
  have a2: "sublist ''In stock'' ''In stock''" by simp
  have c2: "\<forall>i ds. \<not> count_at ''In stock'' i ds"
  proof (intro allI notI)
    fix i ds assume "count_at ''In stock'' i ds"
    then have "i < length ''In stock'' \<and> ''In stock'' ! i = CHR ''(''"
      by (rule count_at_paren)
    then show False by (simp add: nth_Cons' less_Suc_eq numeral_nat split: if_splits)
  qed
  have a3: "\<not> sublist ''In stock'' ''Out of stock''"
    by (simp add: py_in_sublist [symmetric])
  show ?thesis
    using extract_availability_cases [of ?s 9 "''22''"] a b c
      extract_availability_cases [of "''In stock''" 0 "[]"] a2 c2
      extract_availability_cases [of "''Out of stock''" 0 "[]"] a3
    by blast
qed

text \<open>
  C8 as stated fails: \<open>(22 available)\<close> holds a parenthesised count, yet without the
  stock wording the result is \<open>0\<close> and not the digits.
\<close>

theorem extract_availability_counterexample:
  "count_at ''(22 available)'' 0 ''22'' \<and> extract_availability ''(22 available)'' = ''0''"
  by (simp add: count_at_def is_digit_def extract_availability_def)

subsection \<open>Listing extractor\<close>

lemma listing_loop_acc:
  "scrape_book_listing_loop uj base arts books =
     books @ scrape_book_listing_loop uj base arts []"
proof (induction arts arbitrary: books)
  case Nil
  show ?case by simp
next
  case (Cons art arts)
  show ?case
  proof (cases "scrape_book_listing_item uj base art")
    case (Inl e)
    then show ?thesis using Cons.IH [of books] by simp
  next
    case (Inr b)
    then show ?thesis using Cons.IH [of "books @ [b]"] Cons.IH [of "[b]"] by simp
  qed
qed

lemma listing_loop_Cons:
  "scrape_book_listing_loop uj base (art # arts) [] =
     (case scrape_book_listing_item uj base art of Inl e \<Rightarrow> [] | Inr b \<Rightarrow> [b])
     @ scrape_book_listing_loop uj base arts []"
  using listing_loop_acc [of uj base arts "[b]" for b]
  by (simp split: sum.splits)

lemma listing_loop_set:
  "b \<in> set (scrape_book_listing_loop uj base arts []) \<longleftrightarrow>
     (\<exists>art\<in>set arts. scrape_book_listing_item uj base art = Inr b)"
proof (induction arts)
  case Nil
  show ?case by simp
next
  case (Cons art arts)
  show ?case
    unfolding listing_loop_Cons using Cons.IH
    by (cases "scrape_book_listing_item uj base art") auto
qed

lemma listing_set:
  "b \<in> set (scrape_book_listing uj sp base) \<longleftrightarrow>
     (\<exists>art\<in>set (articles sp). scrape_book_listing_item uj base art = Inr b)"
  by (simp add: scrape_book_listing_def listing_loop_set)




lemma item_Inr:
  "scrape_book_listing_item uj base art = Inr b \<longleftrightarrow>
     (\<exists>link u. h3_a art = Some (Some link) \<and>
        uj base (case href_attr link of None \<Rightarrow> [] | Some h \<Rightarrow> h) = Some u \<and>
        b = \<lparr>title = strip (case title_attr link of None \<Rightarrow> [] | Some t \<Rightarrow> t),
             price = (case price_color art of Some t \<Rightarrow> strip t | None \<Rightarrow> ''N/A''),
             rating = extract_rating (join '' '' (case star_rating art of Some cls \<Rightarrow> cls | None \<Rightarrow> [])),
             availability = extract_availability
               (case instock_availability art of Some t \<Rightarrow> strip t | None \<Rightarrow> []),
             product_url = u, upc = None, category = None, description = None\<rparr>)"
  by (auto simp: scrape_book_listing_item_def Let_def split: option.splits)

lemma extract_availability_empty: "extract_availability [] = ''0''"
  by (simp add: extract_availability_def)

lemma listing_sample:
  "scrape_book_listing urljoin_append listing_page base_url = [untitled_book]"
  by (simp add: scrape_book_listing_def listing_page_def untitled_article_def
      scrape_book_listing_item_def urljoin_append_def base_url_def untitled_book_def
      strip_def extract_availability_def extract_rating_def rating_map_def
      lower_def lower_char_def)

text \<open>
  C10: an item whose title link is found and whose URL joins is never skipped. Its
  record is in the output; the price is \<open>N/A\<close> when the price element is absent and
  the availability is \<open>0\<close> when the availability element is absent.
\<close>

theorem listing_absent_price_availability:
  assumes "art \<in> set (articles sp)"
    and "h3_a art = Some (Some link)"
    and "uj base (case href_attr link of None \<Rightarrow> [] | Some h \<Rightarrow> h) = Some u"
  shows "\<exists>b\<in>set (scrape_book_listing uj sp base).
           scrape_book_listing_item uj base art = Inr b \<and>
           (price_color art = None \<longrightarrow> price b = ''N/A'') \<and>
           (instock_availability art = None \<longrightarrow> availability b = ''0'')"
proof -
  from assms(2,3) obtain b where b: "scrape_book_listing_item uj base art = Inr b"
    and p: "price b = (case price_color art of Some t \<Rightarrow> strip t | None \<Rightarrow> ''N/A'')"
    and a: "availability b = extract_availability
               (case instock_availability art of Some t \<Rightarrow> strip t | None \<Rightarrow> [])"
    by (auto simp: item_Inr)
  from b assms(1) have "b \<in> set (scrape_book_listing uj sp base)"
    by (auto simp: listing_set)
  with b p a show ?thesis by (auto simp: extract_availability_empty)
qed

text \<open>
  C10 at the sample listing page, whose only item has neither price nor
  availability element.
\<close>

theorem listing_absent_price_availability_witness:
  "\<exists>b\<in>set (scrape_book_listing urljoin_append listing_page base_url).
      scrape_book_listing_item urljoin_append base_url untitled_article = Inr b \<and>
      price b = ''N/A'' \<and> availability b = ''0''"
proof -
  have a: "untitled_article \<in> set (articles listing_page)"
    by (simp add: listing_page_def)
  have l: "h3_a untitled_article
             = Some (Some \<lparr>title_attr = None, href_attr = Some ''a/index.html''\<rparr>)"
    by (simp add: untitled_article_def)
  have u: "urljoin_append base_url
             (case href_attr \<lparr>title_attr = None, href_attr = Some ''a/index.html''\<rparr> of
                None \<Rightarrow> [] | Some h \<Rightarrow> h) = Some (base_url @ ''a/index.html'')"
    by (simp add: urljoin_append_def)
  have "price_color untitled_article = None" "instock_availability untitled_article = None"
    by (simp_all add: untitled_article_def)
  with a l u
    listing_absent_price_availability
      [where art = untitled_article and sp = listing_page and uj = urljoin_append
         and base = base_url and u = "base_url @ ''a/index.html''"
         and link = "\<lparr>title_attr = None, href_attr = Some ''a/index.html''\<rparr>"]
  show ?thesis by simp
qed




subsection \<open>Detail extractor\<close>

lemma get_page_3:
  "get_page net url 3 tr =
     (case net tr url of
        Page sp \<Rightarrow> (Some sp, tr @ [Http_get url 0, Sleep_delay])
      | RequestException \<Rightarrow>
         (case net (tr @ [Http_get url 0, Sleep_backoff 1]) url of
            Page sp \<Rightarrow> (Some sp, tr @ [Http_get url 0, Sleep_backoff 1, Http_get url 1, Sleep_delay])
          | RequestException \<Rightarrow>
             (case net (tr @ [Http_get url 0, Sleep_backoff 1, Http_get url 1, Sleep_backoff 2]) url of
                Page sp \<Rightarrow> (Some sp, tr @ [Http_get url 0, Sleep_backoff 1, Http_get url 1,
                                          Sleep_backoff 2, Http_get url 2, Sleep_delay])
              | RequestException \<Rightarrow> (None, tr @ [Http_get url 0, Sleep_backoff 1, Http_get url 1,
                                          Sleep_backoff 2, Http_get url 2]))))"
proof -
  have "[0..<nat 3] = [0, 1, 2]" by (simp add: upt_rec numeral_nat)
  then show ?thesis by (simp add: get_page_def split: response.splits)
qed

lemma detail_cases:
  "scrape_book_detail net book tr =
     (case get_page net (product_url book) 3 tr of
        (None, tr') \<Rightarrow> (book, tr')
      | (Some sp, tr') \<Rightarrow>
          (case (detail_upc sp, detail_category sp, detail_description sp) of
             (Inr u, Inr c, Inr d) \<Rightarrow> (book\<lparr>upc := u, category := c, description := d\<rparr>, tr')
           | _ \<Rightarrow> (book, tr')))"
  by (simp add: scrape_book_detail_def split: prod.splits option.splits sum.splits)

lemma detail_no_paragraph:
  "scrape_book_detail (net_serving detail_page_no_paragraph) listed_book []
     = (listed_book, [Http_get (product_url listed_book) 0, Sleep_delay])"
  by (simp add: detail_cases get_page_3 net_serving_def detail_page_no_paragraph_def
      detail_upc_def detail_category_def detail_description_def)

text \<open>
  C2, as the code has it: one handler encloses the three extractions and the
  assignments. When the page was fetched and any of the three extractions raises, the
  record is returned as it came in, without the fields extracted before; only when
  all three succeed are the three fields assigned.
\<close>

theorem detail_all_or_nothing:
  assumes "get_page net (product_url book) 3 tr = (Some sp, tr')"
  shows "((\<exists>e. detail_upc sp = Inl e \<or> detail_category sp = Inl e \<or> detail_description sp = Inl e)
            \<longrightarrow> scrape_book_detail net book tr = (book, tr')) \<and>
         (\<forall>u c d. detail_upc sp = Inr u \<and> detail_category sp = Inr c \<and> detail_description sp = Inr d
            \<longrightarrow> scrape_book_detail net book tr =
                  (book\<lparr>upc := u, category := c, description := d\<rparr>, tr'))"
  using assms by (auto simp: detail_cases split: sum.splits)

text \<open>
  C2 at the sample detail page whose description anchor has no following
  paragraph: the description raises, and the record comes back unchanged.
\<close>

theorem detail_all_or_nothing_witness:
  "detail_description detail_page_no_paragraph = Inl AttributeError \<and>
   scrape_book_detail (net_serving detail_page_no_paragraph) listed_book []
     = (listed_book, [Http_get (product_url listed_book) 0, Sleep_delay])"
proof -
  have g: "get_page (net_serving detail_page_no_paragraph) (product_url listed_book) 3 []
             = (Some detail_page_no_paragraph,
                [Http_get (product_url listed_book) 0, Sleep_delay])"
    by (simp add: get_page_3 net_serving_def)
  have d: "detail_description detail_page_no_paragraph = Inl AttributeError"
    by (simp add: detail_description_def detail_page_no_paragraph_def)
  with detail_all_or_nothing [OF g] show ?thesis by blast
qed

text \<open>
  C2 as stated fails: on that page the identifier is extracted, the description
  raises, and the record returned carries no identifier.
\<close>

theorem detail_partial_counterexample:
  "detail_upc detail_page_no_paragraph = Inr (Some ''a897fe39b1053632'') \<and>
   detail_description detail_page_no_paragraph = Inl AttributeError \<and>
   upc (fst (scrape_book_detail (net_serving detail_page_no_paragraph) listed_book [])) = None"
proof -
  have "detail_upc detail_page_no_paragraph = Inr (Some ''a897fe39b1053632'')"
    by (simp add: detail_upc_def detail_page_no_paragraph_def strip_def is_space_def)
  moreover have "detail_description detail_page_no_paragraph = Inl AttributeError"
    by (simp add: detail_description_def detail_page_no_paragraph_def)
  moreover have "upc listed_book = None"
    by (simp add: listed_book_def)
  ultimately show ?thesis
    by (simp add: detail_no_paragraph)
qed

lemma detail_category_Some: "detail_category sp = Inr c \<Longrightarrow> c \<noteq> None"
  by (auto simp: detail_category_def split: option.splits list.splits)

text \<open>
  C7, as the code has it: for every input record the fields filled by the listing
  extractor, title and URL among them, are unchanged; when the fetch of the detail
  page fails the record is returned unchanged; otherwise the record is either
  unchanged or has its three optional fields overwritten with the values extracted
  from the page. A present category never becomes absent, and for a record whose
  identifier and description are absent, as for every record of the listing
  extractor, no optional field goes from present to absent.
\<close>

theorem detail_frame:
  "listing_fields (fst (scrape_book_detail net book tr)) = listing_fields book \<and>
   (fst (get_page net (product_url book) 3 tr) = None
      \<longrightarrow> fst (scrape_book_detail net book tr) = book) \<and>
   (fst (scrape_book_detail net book tr) = book \<or>
    (\<exists>sp u c d. fst (get_page net (product_url book) 3 tr) = Some sp \<and>
       detail_upc sp = Inr u \<and> detail_category sp = Inr c \<and> detail_description sp = Inr d \<and>
       fst (scrape_book_detail net book tr) = book\<lparr>upc := u, category := c, description := d\<rparr>)) \<and>
   (category book \<noteq> None \<longrightarrow> category (fst (scrape_book_detail net book tr)) \<noteq> None) \<and>
   (upc book = None \<and> description book = None \<longrightarrow>
      (\<forall>f\<in>{upc, category, description}.
          f book \<noteq> None \<longrightarrow> f (fst (scrape_book_detail net book tr)) \<noteq> None))"
proof -
  obtain r tr' where g: "get_page net (product_url book) 3 tr = (r, tr')"
    by (cases "get_page net (product_url book) 3 tr")
  show ?thesis
  proof (cases r)
    case None
    with g show ?thesis by (simp add: detail_cases)
  next
    case (Some sp)
    with g show ?thesis
      by (auto simp: detail_cases listing_fields_def split: sum.splits dest: detail_category_Some)
  qed
qed

text \<open>
  C7 at a record with a category and an unreachable detail page: the record comes
  back unchanged.
\<close>

theorem detail_frame_witness:
  "fst (get_page net_down (product_url (listed_book\<lparr>category := Some ''Poetry''\<rparr>)) 3 []) = None \<and>
   fst (scrape_book_detail net_down (listed_book\<lparr>category := Some ''Poetry''\<rparr>) [])
     = listed_book\<lparr>category := Some ''Poetry''\<rparr> \<and>
   category (fst (scrape_book_detail net_down (listed_book\<lparr>category := Some ''Poetry''\<rparr>) []))
     \<noteq> None"
proof -
  have g: "fst (get_page net_down (product_url (listed_book\<lparr>category := Some ''Poetry''\<rparr>)) 3 [])
             = None"
    by (simp add: get_page_3 net_down_def)
  have c: "category (listed_book\<lparr>category := Some ''Poetry''\<rparr>) \<noteq> None" by simp
  from g c detail_frame [of net_down "listed_book\<lparr>category := Some ''Poetry''\<rparr>" "[]"]
  show ?thesis by blast
qed

text \<open>
  C7 as stated fails for an input record that already has an identifier: on a page
  without identifier row the extraction succeeds and the identifier becomes absent.
\<close>

theorem detail_monotonic_counterexample:
  "upc (listed_book\<lparr>upc := Some ''a897fe39b1053632''\<rparr>) \<noteq> None \<and>
   upc (fst (scrape_book_detail (net_serving detail_page_no_upc)
               (listed_book\<lparr>upc := Some ''a897fe39b1053632''\<rparr>) [])) = None"
  by (simp add: detail_cases get_page_3 net_serving_def detail_page_no_upc_def
      detail_upc_def detail_category_def detail_description_def)

subsection \<open>Page fetcher\<close>

lemma backoff_prefix_Suc:
  "backoff_prefix url (Suc k) = backoff_prefix url k @ [Http_get url k, Sleep_backoff (2 ^ k)]"
  by (simp add: backoff_prefix_def)

lemma get_page_loop_fail:
  assumes "\<forall>j<n. net (tr @ backoff_prefix url j) url = RequestException"
  shows "k < n \<Longrightarrow>
         get_page_loop net url (int n) [k..<n] (tr @ backoff_prefix url k)
           = (None, tr @ exhausted_trace url n)"
proof (induction "n - k" arbitrary: k)
  case 0
  then show ?case by simp
next
  case (Suc d)
  from Suc.prems have f: "net (tr @ backoff_prefix url k) url = RequestException"
    using assms by blast
  from Suc.prems have u: "[k..<n] = k # [Suc k..<n]" by (simp add: upt_conv_Cons)
  show ?case
  proof (cases "Suc k < n")
    case True
    then have "d = n - Suc k" using Suc.hyps(2) by simp
    from Suc.hyps(1) [OF this True]
    have "get_page_loop net url (int n) [Suc k..<n] (tr @ backoff_prefix url (Suc k))
            = (None, tr @ exhausted_trace url n)" .
    with True f show ?thesis by (simp add: u backoff_prefix_Suc)
  next
    case False
    with Suc.prems have n: "n = Suc k" by simp
    from f show ?thesis by (simp add: n exhausted_trace_def)
  qed
qed

lemma get_page_fail:
  assumes "1 \<le> m" and "\<forall>k<nat m. net (tr @ backoff_prefix url k) url = RequestException"
  shows "get_page net url m tr = (None, tr @ exhausted_trace url (nat m))"
proof -
  from assms(1) have "0 < nat m" "int (nat m) = m" by simp_all
  with assms(2) get_page_loop_fail [where n = "nat m" and net = net and tr = tr and url = url and k = 0]
  show ?thesis
    by (simp add: get_page_def backoff_prefix_def)
qed

lemma http_gets_append: "http_gets (xs @ ys) = http_gets xs @ http_gets ys"
  by (induction xs rule: http_gets.induct) simp_all

lemma backoffs_append: "backoffs (xs @ ys) = backoffs xs @ backoffs ys"
  by (induction xs rule: backoffs.induct) simp_all

lemma http_gets_backoff_prefix: "http_gets (backoff_prefix url k) = map (\<lambda>a. (url, a)) [0..<k]"
  by (induction k) (simp_all add: backoff_prefix_Suc http_gets_append, simp add: backoff_prefix_def)

lemma backoffs_backoff_prefix: "backoffs (backoff_prefix url k) = map (\<lambda>a. 2 ^ a) [0..<k]"
  by (induction k) (simp_all add: backoff_prefix_Suc backoffs_append, simp add: backoff_prefix_def)

lemma no_delay_backoff_prefix: "Sleep_delay \<notin> set (backoff_prefix url k)"
  by (auto simp: backoff_prefix_def)

lemma exhausted_projections:
  assumes "0 < n"
  shows "http_gets (exhausted_trace url n) = map (\<lambda>a. (url, a)) [0..<n]"
    and "backoffs (exhausted_trace url n) = map (\<lambda>a. 2 ^ a) [0..<n - 1]"
    and "Sleep_delay \<notin> set (exhausted_trace url n)"
proof -
  from assms obtain k where n: "n = Suc k" by (cases n) auto
  show "http_gets (exhausted_trace url n) = map (\<lambda>a. (url, a)) [0..<n]"
    by (simp add: n exhausted_trace_def http_gets_append http_gets_backoff_prefix)
  show "backoffs (exhausted_trace url n) = map (\<lambda>a. 2 ^ a) [0..<n - 1]"
    by (simp add: n exhausted_trace_def backoffs_append backoffs_backoff_prefix)
  show "Sleep_delay \<notin> set (exhausted_trace url n)"
    by (simp add: exhausted_trace_def no_delay_backoff_prefix)
qed

text \<open>
  C5: for \<open>max_retries = m\<close> with \<open>m \<ge> 1\<close>, when each of the \<open>m\<close> requests fails, \<open>get_page\<close>
  returns \<open>None\<close> and adds to the trace exactly the requests of the attempts
  \<open>0, \<dots>, m - 1\<close>, with a sleep of \<open>2 ^ a\<close> after each failed attempt \<open>a\<close> but the last
  and no other sleep. In the crawl loop, where \<open>m = 3\<close>, such a page is skipped: the
  loop goes on with the remaining pages and the same accumulator.
\<close>

theorem get_page_exhausts_attempts:
  assumes "1 \<le> m"
    and "\<forall>k<nat m. net (tr @ backoff_prefix url k) url = RequestException"
  shows "get_page net url m tr = (None, tr @ exhausted_trace url (nat m)) \<and>
         http_gets (exhausted_trace url (nat m)) = map (\<lambda>a. (url, a)) [0..<nat m] \<and>
         backoffs (exhausted_trace url (nat m)) = map (\<lambda>a. 2 ^ a) [0..<nat m - 1] \<and>
         Sleep_delay \<notin> set (exhausted_trace url (nat m)) \<and>
         (m = 3 \<and> url = page_url p \<longrightarrow>
            scrape_books_loop net uj dp (p # rest) acc tr
              = scrape_books_loop net uj dp rest acc (tr @ exhausted_trace url 3))"
proof -
  have g: "get_page net url m tr = (None, tr @ exhausted_trace url (nat m))"
    using assms by (rule get_page_fail)
  from assms(1) have "0 < nat m" by simp
  note pr = exhausted_projections [OF this, of url]
  have "m = 3 \<and> url = page_url p \<longrightarrow>
          scrape_books_loop net uj dp (p # rest) acc tr
            = scrape_books_loop net uj dp rest acc (tr @ exhausted_trace url 3)"
    using g by auto
  with g pr show ?thesis by blast
qed

text \<open>C5 at the first listing page on a network where every request fails.\<close>

theorem get_page_exhausts_attempts_witness:
  "get_page net_down (page_url 1) 3 []
     = (None, [Http_get (page_url 1) 0, Sleep_backoff 1, Http_get (page_url 1) 1,
               Sleep_backoff 2, Http_get (page_url 1) 2]) \<and>
   scrape_books_loop net_down urljoin_append False [1] [] []
     = ([], [Http_get (page_url 1) 0, Sleep_backoff 1, Http_get (page_url 1) 1,
               Sleep_backoff 2, Http_get (page_url 1) 2])"
proof -
  have e: "exhausted_trace (page_url 1) 3
             = [Http_get (page_url 1) 0, Sleep_backoff 1, Http_get (page_url 1) 1,
                Sleep_backoff 2, Http_get (page_url 1) 2]"
    by (simp add: exhausted_trace_def backoff_prefix_def upt_rec numeral_nat)
  have h: "\<forall>k<nat 3. net_down ([] @ backoff_prefix (page_url 1) k) (page_url 1) = RequestException"
    by (simp add: net_down_def)
  from get_page_exhausts_attempts [of 3 net_down "[]" "page_url 1" 1 urljoin_append False "[]" "[]"] h
  show ?thesis by (simp add: e)
qed

subsection \<open>Crawl orchestrator\<close>

lemma get_page_calls_append:
  "get_page_calls (xs @ ys) = get_page_calls xs @ get_page_calls ys"
  by (induction xs rule: get_page_calls.induct) simp_all

lemma get_page_calls_3:
  "get_page_calls (snd (get_page net url 3 tr)) = get_page_calls tr @ [url]"
  by (simp add: get_page_3 get_page_calls_append split: response.splits)

lemma detail_calls:
  "get_page_calls (snd (scrape_book_detail net book tr)) = get_page_calls tr @ [product_url book]"
proof -
  have "snd (scrape_book_detail net book tr) = snd (get_page net (product_url book) 3 tr)"
    by (simp add: detail_cases split: prod.splits option.splits sum.splits)
  then show ?thesis by (simp add: get_page_calls_3)
qed

lemma detail_listing_fields:
  "listing_fields (fst (scrape_book_detail net book tr)) = listing_fields book"
  by (simp add: detail_cases listing_fields_def split: prod.splits option.splits sum.splits)

lemma detail_loop_fields:
  "map listing_fields (fst (detail_loop net books tr)) = map listing_fields books"
proof (induction books arbitrary: tr)
  case Nil
  show ?case by simp
next
  case (Cons book books)
  obtain b' tr1 where d: "scrape_book_detail net book tr = (b', tr1)"
    by (cases "scrape_book_detail net book tr")
  obtain bs tr2 where l: "detail_loop net books tr1 = (bs, tr2)"
    by (cases "detail_loop net books tr1")
  from d have "listing_fields b' = listing_fields book"
    using detail_listing_fields [of net book tr] by simp
  with d l Cons.IH [of tr1] show ?case by simp
qed

lemma detail_loop_calls:
  "get_page_calls (snd (detail_loop net books tr)) = get_page_calls tr @ map product_url books"
proof (induction books arbitrary: tr)
  case Nil
  show ?case by simp
next
  case (Cons book books)
  obtain b' tr1 where d: "scrape_book_detail net book tr = (b', tr1)"
    by (cases "scrape_book_detail net book tr")
  obtain bs tr2 where l: "detail_loop net books tr1 = (bs, tr2)"
    by (cases "detail_loop net books tr1")
  from d have "get_page_calls tr1 = get_page_calls tr @ [product_url book]"
    using detail_calls [of net book tr] by simp
  with d l Cons.IH [of tr1] show ?case by simp
qed

lemma page_listings_length: "length (page_listings net uj dp ps tr) = length ps"
  by (induction ps arbitrary: tr) (simp_all split: prod.splits option.splits)

lemma loop_fields:
  "map listing_fields (fst (scrape_books_loop net uj dp ps acc tr))
     = map listing_fields acc @ map listing_fields (concat (page_listings net uj dp ps tr))"
proof (induction ps arbitrary: acc tr)
  case Nil
  show ?case by simp
next
  case (Cons p ps)
  obtain r tr1 where g: "get_page net (page_url p) 3 tr = (r, tr1)"
    by (cases "get_page net (page_url p) 3 tr")
  show ?case
  proof (cases r)
    case None
    with g Cons.IH [of acc tr1] show ?thesis by simp
  next
    case (Some sp)
    let ?l = "scrape_book_listing uj sp base_url"
    show ?thesis
    proof (cases dp)
      case True
      obtain bs tr2 where d: "detail_loop net ?l tr1 = (bs, tr2)"
        by (cases "detail_loop net ?l tr1")
      then have "map listing_fields bs = map listing_fields ?l"
        using detail_loop_fields [of net ?l tr1] by simp
      with g Some True d Cons.IH [of "acc @ bs" tr2] show ?thesis by simp
    next
      case False
      with g Some Cons.IH [of "acc @ ?l" tr1] show ?thesis by simp
    qed
  qed
qed

lemma loop_plain:
  "fst (scrape_books_loop net uj False ps acc tr)
     = acc @ concat (page_listings net uj False ps tr)"
proof (induction ps arbitrary: acc tr)
  case Nil
  show ?case by simp
next
  case (Cons p ps)
  obtain r tr1 where g: "get_page net (page_url p) 3 tr = (r, tr1)"
    by (cases "get_page net (page_url p) 3 tr")
  show ?case
  proof (cases r)
    case None
    with g Cons.IH [of acc tr1] show ?thesis by simp
  next
    case (Some sp)
    with g Cons.IH [of "acc @ scrape_book_listing uj sp base_url" tr1] show ?thesis by simp
  qed
qed

lemma loop_calls:
  "get_page_calls (snd (scrape_books_loop net uj dp ps acc tr))
     = get_page_calls tr
       @ concat (map (page_calls dp) (zip ps (page_listings net uj dp ps tr)))"
proof (induction ps arbitrary: acc tr)
  case Nil
  show ?case by simp
next
  case (Cons p ps)
  obtain r tr1 where g: "get_page net (page_url p) 3 tr = (r, tr1)"
    by (cases "get_page net (page_url p) 3 tr")
  then have c1: "get_page_calls tr1 = get_page_calls tr @ [page_url p]"
    using get_page_calls_3 [of net "page_url p" tr] by simp
  show ?case
  proof (cases r)
    case None
    with g c1 Cons.IH [of acc tr1] show ?thesis by (simp add: page_calls_def)
  next
    case (Some sp)
    let ?l = "scrape_book_listing uj sp base_url"
    show ?thesis
    proof (cases dp)
      case True
      obtain bs tr2 where d: "detail_loop net ?l tr1 = (bs, tr2)"
        by (cases "detail_loop net ?l tr1")
      then have "get_page_calls tr2 = get_page_calls tr1 @ map product_url ?l"
        using detail_loop_calls [of net ?l tr1] by simp
      with g c1 Some True d Cons.IH [of "acc @ bs" tr2] show ?thesis
        by (simp add: page_calls_def)
    next
      case False
      with g c1 Some Cons.IH [of "acc @ ?l" tr1] show ?thesis by (simp add: page_calls_def)
    qed
  qed
qed

lemma plain_calls:
  "length ps = length ls \<Longrightarrow> concat (map (page_calls False) (zip ps ls)) = map page_url ps"
  by (induction ps ls rule: list_induct2) (simp_all add: page_calls_def)

text \<open>
  C6: a crawl of \<open>max_pages = m\<close> pages has one per-page listing result for each of
  the page numbers \<open>1, \<dots>, m\<close>. The returned records are the concatenation of these
  results in page order: equal to it in a plain crawl, and, in a deep crawl where
  the records are enriched in place, equal to it on every field the listing
  extractor fills. So the number of records is the sum of the per-page counts. The
  \<open>get_page\<close> calls of the run are, page by page in order, one call for the listing
  page followed in a deep crawl by one call for each record of that page; in a
  plain crawl they are exactly the calls for the listing pages \<open>1, \<dots>, m\<close>.
\<close>

theorem scrape_books_pages:
  "length (page_listings net uj dp [1..m] tr) = nat m \<and>
   map listing_fields (fst (scrape_books net uj m dp tr))
     = map listing_fields (concat (page_listings net uj dp [1..m] tr)) \<and>
   (\<not> dp \<longrightarrow> fst (scrape_books net uj m dp tr) = concat (page_listings net uj dp [1..m] tr)) \<and>
   length (fst (scrape_books net uj m dp tr))
     = sum_list (map length (page_listings net uj dp [1..m] tr)) \<and>
   get_page_calls (snd (scrape_books net uj m dp tr))
     = get_page_calls tr
       @ concat (map (page_calls dp) (zip [1..m] (page_listings net uj dp [1..m] tr))) \<and>
   (\<not> dp \<longrightarrow> get_page_calls (snd (scrape_books net uj m dp tr))
                = get_page_calls tr @ map page_url [1..m])"
proof -
  let ?ls = "page_listings net uj dp [1..m] tr"
  have len: "length ?ls = nat m"
    by (simp add: page_listings_length)
  have fields: "map listing_fields (fst (scrape_books net uj m dp tr))
                  = map listing_fields (concat ?ls)"
    using loop_fields [of net uj dp "[1..m]" "[]" tr] by (simp add: scrape_books_def)
  have plain: "\<not> dp \<longrightarrow> fst (scrape_books net uj m dp tr) = concat ?ls"
    using loop_plain [of net uj "[1..m]" "[]" tr] by (simp add: scrape_books_def)
  have "length (map listing_fields (fst (scrape_books net uj m dp tr)))
          = length (map listing_fields (concat ?ls))"
    using fields by simp
  then have count: "length (fst (scrape_books net uj m dp tr)) = sum_list (map length ?ls)"
    by (simp add: length_concat)
  have calls: "get_page_calls (snd (scrape_books net uj m dp tr))
                 = get_page_calls tr @ concat (map (page_calls dp) (zip [1..m] ?ls))"
    using loop_calls [of net uj dp "[1..m]" "[]" tr] by (simp add: scrape_books_def)
  have "\<not> dp \<longrightarrow> get_page_calls (snd (scrape_books net uj m dp tr))
                   = get_page_calls tr @ map page_url [1..m]"
    using calls plain_calls [of "[1..m]" ?ls] page_listings_length [of net uj dp "[1..m]" tr]
    by auto
  with len fields plain count calls show ?thesis by blast
qed

text \<open>
  C6 at a plain crawl of one page on a network that serves the sample listing page.
\<close>

theorem scrape_books_pages_witness:
  "fst (scrape_books (net_serving listing_page) urljoin_append 1 False []) = [untitled_book] \<and>
   get_page_calls (snd (scrape_books (net_serving listing_page) urljoin_append 1 False []))
     = [page_url 1]"
proof -
  have u: "[1..1] = [1::int]" by (simp add: upto.simps)
  have l: "page_listings (net_serving listing_page) urljoin_append False [1] []
             = [[untitled_book]]"
    by (simp add: get_page_3 net_serving_def listing_sample)
  note t = scrape_books_pages [of "net_serving listing_page" urljoin_append False 1 "[]"]
  have "fst (scrape_books (net_serving listing_page) urljoin_append 1 False [])
          = concat [[untitled_book]]"
    using t unfolding u l by blast
  moreover have "get_page_calls (snd (scrape_books (net_serving listing_page) urljoin_append 1 False []))
          = get_page_calls [] @ map page_url [1]"
    using t unfolding u l by blast
  ultimately show ?thesis by simp
qed

subsection \<open>Tabular sink\<close>












subsection \<open>Command line\<close>

lemma scrape_books_down:
  "fst (scrape_books net_down urljoin_append 3 False []) = []"
proof -
  have "[1..3] = [1, 2, 3::int]" by (simp add: upto.simps)
  then show ?thesis by (simp add: scrape_books_def get_page_3 net_down_def)
qed

lemma scrape_books_serving:
  "fst (scrape_books (net_serving listing_page) urljoin_append 3 False [])
     = [untitled_book, untitled_book, untitled_book]"
proof -
  have "[1..3] = [1, 2, 3::int]" by (simp add: upto.simps)
  then show ?thesis
    by (simp add: scrape_books_def get_page_3 net_serving_def listing_sample)
qed

lemma main_returns: "fst (snd (main net uj a tr)) = Returned"
  by (simp add: main_def split: prod.splits)

text \<open>
  C3, as the code has it: when the crawl yields no record, \<open>main\<close> prints the message
  of the empty run, calls no sink, prints no summary and returns. When it yields
  records, the message is not printed, the first action is the tabular sink and the
  last one the completion summary. In both cases \<open>main\<close> returns normally, so the
  exit status is 0.
\<close>

theorem main_zero_records:
  "(fst (scrape_books net uj (args_max_pages a) (args_deep a) tr) = [] \<longrightarrow>
      main net uj a tr
        = ([Print_no_books_scraped], Returned,
           snd (scrape_books net uj (args_max_pages a) (args_deep a) tr))) \<and>
   (fst (scrape_books net uj (args_max_pages a) (args_deep a) tr) \<noteq> [] \<longrightarrow>
      Print_no_books_scraped \<notin> set (fst (main net uj a tr)) \<and>
      hd (fst (main net uj a tr))
        = Save_to_csv (fst (scrape_books net uj (args_max_pages a) (args_deep a) tr))
            (args_out_csv a) \<and>
      last (fst (main net uj a tr))
        = Print_completed
            (length (fst (scrape_books net uj (args_max_pages a) (args_deep a) tr)))
            (args_out_csv a) (args_out_sqlite a)) \<and>
   exit_status (fst (snd (main net uj a tr))) = 0"
  by (auto simp: main_def exit_status_def split: prod.splits option.splits)

text \<open>C3 at the default command line on a network where every request fails.\<close>

theorem main_zero_records_witness:
  "main net_down urljoin_append default_args []
     = ([Print_no_books_scraped], Returned,
        snd (scrape_books net_down urljoin_append 3 False [])) \<and>
   exit_status (fst (snd (main net_down urljoin_append default_args []))) = 0"
proof -
  have a: "args_max_pages default_args = 3" "args_deep default_args = False"
    by (simp_all add: default_args_def)
  from main_zero_records [of net_down urljoin_append default_args "[]"]
  show ?thesis unfolding a using scrape_books_down by blast
qed

text \<open>
  C3 as stated fails: on that run no record is produced, and the exit status is 0,
  as it is on a run of the same command line that produces records.
\<close>

theorem main_exit_status_counterexample:
  "fst (scrape_books net_down urljoin_append (args_max_pages default_args)
          (args_deep default_args) []) = [] \<and>
   exit_status (fst (snd (main net_down urljoin_append default_args []))) = 0 \<and>
   fst (scrape_books (net_serving listing_page) urljoin_append (args_max_pages default_args)
          (args_deep default_args) []) \<noteq> [] \<and>
   exit_status (fst (snd (main (net_serving listing_page) urljoin_append default_args []))) = 0"
  by (simp add: main_returns exit_status_def default_args_def scrape_books_down
      scrape_books_serving)

end
